theory Spec2Isabelle
  imports Main
begin

section \<open>Marker Tab and Enter key navigation (src/index.js)\<close>

text \<open>
  The library keeps its state in the object \<^verbatim>\<open>google.maps.markerNavigation\<close> and reacts to
  DOM events. The embedding passes that object explicitly as a record. Marker objects are
  mutable and shared between arrays, so they live in a store addressed by references.
  Arrays are objects too: the library stores and closes over the caller's array, not a
  copy, so the arrays live in a second store, \<open>arrays\<close>, and the state holds references
  to them; the content of an array is a list of marker references, which the host
  application may change in place. A JavaScript \<^verbatim>\<open>undefined\<close> is \<open>None\<close>.
  The calls the library makes on the host widget (\<^verbatim>\<open>setIcon\<close>, \<^verbatim>\<open>panTo\<close>,
  \<^verbatim>\<open>addDomListener\<close>, \<^verbatim>\<open>remove\<close>, \<^verbatim>\<open>trigger\<close>) are recorded, in order, in the
  field \<open>effects\<close>.

  Arguments have the types the JSDoc comments declare: a marker list is an array of marker
  objects, so \<^verbatim>\<open>markers || []\<close> is \<^verbatim>\<open>markers\<close>, and reading an element gives a marker
  or, out of range, \<^verbatim>\<open>undefined\<close>. An icon is a string path. The lookup of the inner
  container at the start of \<^verbatim>\<open>keyNavInit\<close> belongs to the page and is not modelled; what
  the library reads of the page is whether that container is the active element.
\<close>

subsection \<open>Data\<close>

type_synonym icon = string
type_synonym marker_ref = nat
type_synonym listener_ref = nat
type_synonym array_ref = nat
type_synonym latlng = "int \<times> int"

record marker =
  icon :: "icon option"
  position :: latlng

datatype effect =
    SetIcon marker_ref "icon option"
  | PanTo latlng
  | AddDomListener listener_ref marker_ref
  | Remove listener_ref
  | TriggerClick marker_ref

text \<open>
  \<open>markers\<close> is the array stored in \<^verbatim>\<open>google.maps.markerNavigation.markers\<close>.
  \<open>observer_markers\<close> is the \<^verbatim>\<open>const markers\<close> of \<^verbatim>\<open>__addTabNavToMapMarkers\<close>, the array
  the key-down observer closes over. \<open>listeners\<close> are the Enter listeners attached to the
  document and not yet removed, in the order of their attachment, each with the marker its
  callback closes over. \<open>next_listener\<close> is the handle the next
  \<^verbatim>\<open>addDomListener\<close> returns.
\<close>

record nav =
  store :: "marker_ref \<Rightarrow> marker"
  arrays :: "array_ref \<Rightarrow> marker_ref list"
  markers :: array_ref
  currentMarker :: int
  markerIcons :: "icon option list"
  selectedMarkerIcon :: "icon option"
  deselectedMarkerIcon :: "icon option"
  previousMarkerListener :: "listener_ref option"
  observer_markers :: array_ref
  listeners :: "(listener_ref \<times> marker_ref) list"
  next_listener :: listener_ref
  effects :: "effect list"

text \<open>The content of the stored array and of the observer's array, as they are now.\<close>

abbreviation marker_list :: "nav \<Rightarrow> marker_ref list" where
  "marker_list s \<equiv> arrays s (markers s)"

abbreviation observer_list :: "nav \<Rightarrow> marker_ref list" where
  "observer_list s \<equiv> arrays s (observer_markers s)"

record icons =
  selected :: "icon option"
  deselected :: "icon option"

record key_event =
  key :: string
  shiftKey :: bool

subsection \<open>JavaScript primitives\<close>

text \<open>\<^verbatim>\<open>xs[i]\<close>: \<^verbatim>\<open>undefined\<close> outside \<open>[0, length)\<close>, never an error.\<close>

definition js_index :: "'a list \<Rightarrow> int \<Rightarrow> 'a option" where
  "js_index xs i = (if 0 \<le> i \<and> i < int (length xs) then Some (xs ! nat i) else None)"

text \<open>Truthiness of an optional string: \<^verbatim>\<open>undefined\<close> and the empty string are falsy.\<close>

definition truthy :: "icon option \<Rightarrow> bool" where
  "truthy x = (case x of None \<Rightarrow> False | Some v \<Rightarrow> v \<noteq> [])"

definition setIcon :: "marker_ref \<Rightarrow> icon option \<Rightarrow> nav \<Rightarrow> nav" where
  "setIcon m ic s =
     s\<lparr>store := (store s)(m := (store s m)\<lparr>icon := ic\<rparr>),
       effects := effects s @ [SetIcon m ic]\<rparr>"

definition panTo :: "latlng \<Rightarrow> nav \<Rightarrow> nav" where
  "panTo p s = s\<lparr>effects := effects s @ [PanTo p]\<rparr>"

definition remove_listener :: "listener_ref \<Rightarrow> nav \<Rightarrow> nav" where
  "remove_listener l s =
     s\<lparr>listeners := filter (\<lambda>p. fst p \<noteq> l) (listeners s),
       effects := effects s @ [Remove l]\<rparr>"

subsection \<open>The functions of src/index.js\<close>

text \<open>\<^verbatim>\<open>__getMarkerIconsFromMarkers\<close> (the argument is an array, hence truthy).\<close>

definition getMarkerIconsFromMarkers :: "(marker_ref \<Rightarrow> marker) \<Rightarrow> marker_ref list \<Rightarrow> icon option list" where
  "getMarkerIconsFromMarkers h ms = map (\<lambda>m. icon (h m)) ms"

text \<open>\<^verbatim>\<open>__addClickMarkerViaEnterKey\<close>: attaches the Enter listener for the marker.\<close>

definition addClickMarkerViaEnterKey :: "marker_ref option \<Rightarrow> nav \<Rightarrow> listener_ref option \<times> nav" where
  "addClickMarkerViaEnterKey marker s =
     (case marker of
        None \<Rightarrow> (None, s)
      | Some m \<Rightarrow>
          (Some (next_listener s),
           s\<lparr>listeners := listeners s @ [(next_listener s, m)],
             next_listener := Suc (next_listener s),
             effects := effects s @ [AddDomListener (next_listener s) m]\<rparr>))"

text \<open>The callback of that listener, run for a key-down on the document.\<close>

definition enter_callback :: "key_event \<Rightarrow> bool \<Rightarrow> marker_ref \<Rightarrow> nav \<Rightarrow> nav" where
  "enter_callback e active m s =
     (if active \<and> key e = ''Enter'' then s\<lparr>effects := effects s @ [TriggerClick m]\<rparr> else s)"

text \<open>\<^verbatim>\<open>__selectMarker\<close>\<close>

definition selectMarker :: "marker_ref option \<Rightarrow> nav \<Rightarrow> listener_ref option \<times> nav" where
  "selectMarker marker s =
     (case marker of
        None \<Rightarrow> (None, s)
      | Some m \<Rightarrow>
          (let s1 = setIcon m (selectedMarkerIcon s) s;
               s2 = panTo (position (store s1 m)) s1
           in addClickMarkerViaEnterKey (Some m) s2))"

text \<open>\<^verbatim>\<open>__deselectMarker\<close>: the guard on the marker comes before everything else.\<close>

definition deselectMarker :: "listener_ref option \<Rightarrow> marker_ref option \<Rightarrow> nav \<Rightarrow> nav" where
  "deselectMarker enterListener marker s =
     (case marker of
        None \<Rightarrow> s
      | Some m \<Rightarrow>
          (let ic = (if length (markerIcons s) \<noteq> 0
                     then Option.bind (js_index (markerIcons s) (currentMarker s)) id
                     else deselectedMarkerIcon s);
               s1 = setIcon m ic s
           in case enterListener of None \<Rightarrow> s1 | Some l \<Rightarrow> remove_listener l s1))"

text \<open>\<^verbatim>\<open>__iterateMarkers\<close>: reads the stored marker list, not the observer's.\<close>

definition iterateMarkers :: "listener_ref option \<Rightarrow> bool \<Rightarrow> nav \<Rightarrow> listener_ref option \<times> nav" where
  "iterateMarkers listener shift s =
     (let ms = marker_list s;
          s0 = (if length ms = 0 then s\<lparr>currentMarker := 0\<rparr> else s);
          mod' = (if shift then - 1 else 1);
          (newListener, s1) = selectMarker (js_index ms (currentMarker s0 + mod')) s0;
          s2 = deselectMarker listener (js_index ms (currentMarker s1)) s1
      in (newListener, s2\<lparr>currentMarker := currentMarker s2 + mod'\<rparr>))"

text \<open>
  The key-down observer installed by \<^verbatim>\<open>__addTabNavToMapMarkers\<close>. \<open>active\<close> is
  \<^verbatim>\<open>document.activeElement === mapDiv\<close>; the second component of the result tells whether
  \<^verbatim>\<open>e.preventDefault()\<close> was called.
\<close>

definition observer :: "key_event \<Rightarrow> bool \<Rightarrow> nav \<Rightarrow> nav \<times> bool" where
  "observer e active s =
     (let len = int (length (observer_list s)) in
      if key e = ''Tab'' \<and> \<not> active then
        (if \<not> shiftKey e then (s\<lparr>currentMarker := - 1\<rparr>, False)
         else (s\<lparr>currentMarker := len\<rparr>, False))
      else if active \<and> key e = ''Tab'' then
        (let shift = shiftKey e;
             (l, s1) = iterateMarkers (previousMarkerListener s) shift s;
             s2 = s1\<lparr>previousMarkerListener := l\<rparr>
         in if currentMarker s2 \<ge> len \<and> \<not> shift then (s2\<lparr>currentMarker := len\<rparr>, False)
            else if currentMarker s2 \<le> - 1 \<and> shift then (s2\<lparr>currentMarker := - 1\<rparr>, False)
            else (s2, True))
      else (s, False))"

text \<open>
  A key-down on the document: the observer was attached first, then come the Enter
  listeners that were attached when the dispatch began and have not been removed since.
\<close>

definition keydown :: "key_event \<Rightarrow> bool \<Rightarrow> nav \<Rightarrow> nav \<times> bool" where
  "keydown e active s =
     (let (s1, prevented) = observer e active s;
          live = filter (\<lambda>p. p \<in> set (listeners s1)) (listeners s)
      in (foldl (\<lambda>t p. enter_callback e active (snd p) t) s1 live, prevented))"

text \<open>The \<^verbatim>\<open>focusout\<close> handler of \<^verbatim>\<open>keyNavInit\<close>.\<close>

definition focusout :: "nav \<Rightarrow> nav" where
  "focusout s =
     (deselectMarker (previousMarkerListener s) (js_index (marker_list s) (currentMarker s)) s)
       \<lparr>currentMarker := - 1\<rparr>"

text \<open>
  \<^verbatim>\<open>updateMarkerCount\<close>, the re-bind operation. It stores the array it is given, which may
  be the array stored before or another one; the observer's array is not touched.
\<close>

definition updateMarkerCount :: "array_ref \<Rightarrow> nav \<Rightarrow> nav" where
  "updateMarkerCount a s =
     s\<lparr>markers := a,
       markerIcons := getMarkerIconsFromMarkers (store s) (arrays s a),
       previousMarkerListener := None\<rparr>"

text \<open>
  \<^verbatim>\<open>keyNavInit\<close>, given the marker objects \<open>h\<close> and the arrays \<open>arrs\<close> as they are when
  it is called, and the array \<open>a\<close> passed as \<^verbatim>\<open>markers\<close>. The observer captures the same
  array (line 94). The \<^verbatim>\<open>previousMarkerListener\<close> property does not exist yet, so it reads
  \<^verbatim>\<open>undefined\<close>.
\<close>

definition keyNavInit ::
  "(marker_ref \<Rightarrow> marker) \<Rightarrow> (array_ref \<Rightarrow> marker_ref list) \<Rightarrow> array_ref \<Rightarrow> icons option \<Rightarrow> bool \<Rightarrow> nav" where
  "keyNavInit h arrs a ics distinctMarkerIconFlag =
     \<lparr>store = h,
      arrays = arrs,
      markers = a,
      currentMarker = - 1,
      markerIcons = (if distinctMarkerIconFlag then getMarkerIconsFromMarkers h (arrs a) else []),
      selectedMarkerIcon =
        (case ics of None \<Rightarrow> None
         | Some i \<Rightarrow> if truthy (selected i) then selected i else None),
      deselectedMarkerIcon =
        (case ics of None \<Rightarrow> None
         | Some i \<Rightarrow> if truthy (deselected i) then deselected i else None),
      previousMarkerListener = None,
      observer_markers = a,
      listeners = [],
      next_listener = 0,
      effects = []\<rparr>"

subsection \<open>The page around the library\<close>

text \<open>
  The browser decides which element has the focus. \<open>focused\<close> says whether it is the map
  container. \<open>FocusIn\<close> is the focus arriving there, by Tab or by any other means, and
  \<open>FocusOut\<close> is the focus leaving, at which the container fires \<^verbatim>\<open>focusout\<close>. Where the
  focus goes after a Tab that was not suppressed is the browser's choice: it is whatever
  focus event comes next. \<open>Rebind\<close> is the host application calling
  \<^verbatim>\<open>updateMarkerCount\<close> with an array, and \<open>Mutate\<close> is the host application changing
  the content of an array in place (or filling a new one). \<open>prevented\<close> collects, for every key-down, whether the observer
  suppressed it.
\<close>

record page =
  nav_of :: nav
  focused :: bool
  prevented :: "bool list"

datatype event =
    KeyDown string bool
  | FocusIn
  | FocusOut
  | Rebind array_ref
  | Mutate array_ref "marker_ref list"

fun host_change :: "event \<Rightarrow> bool" where
  "host_change (Rebind a) = True"
| "host_change (Mutate a ms) = True"
| "host_change e = False"

fun mutates :: "array_ref \<Rightarrow> event \<Rightarrow> bool" where
  "mutates a (Mutate b ms) = (a = b)"
| "mutates a e = False"

fun step :: "page \<Rightarrow> event \<Rightarrow> page" where
  "step w (KeyDown k sh) =
     (let (s, p) = keydown \<lparr>key = k, shiftKey = sh\<rparr> (focused w) (nav_of w)
      in w\<lparr>nav_of := s, prevented := prevented w @ [p]\<rparr>)"
| "step w FocusIn = w\<lparr>focused := True\<rparr>"
| "step w FocusOut = w\<lparr>nav_of := focusout (nav_of w), focused := False\<rparr>"
| "step w (Rebind a) = w\<lparr>nav_of := updateMarkerCount a (nav_of w)\<rparr>"
| "step w (Mutate a ms) = w\<lparr>nav_of := (nav_of w)\<lparr>arrays := (arrays (nav_of w))(a := ms)\<rparr>\<rparr>"

definition run :: "page \<Rightarrow> event list \<Rightarrow> page" where
  "run w es = foldl step w es"

definition init_page ::
  "(marker_ref \<Rightarrow> marker) \<Rightarrow> (array_ref \<Rightarrow> marker_ref list) \<Rightarrow> array_ref \<Rightarrow> icons option \<Rightarrow> bool \<Rightarrow> page" where
  "init_page h arrs a ics flag =
     \<lparr>nav_of = keyNavInit h arrs a ics flag, focused = False, prevented = []\<rparr>"

text \<open>The markers of the stored list that carry the selected icon.\<close>

definition selected_markers :: "nav \<Rightarrow> marker_ref list" where
  "selected_markers s =
     filter (\<lambda>m. icon (store s m) = selectedMarkerIcon s) (marker_list s)"

subsection \<open>Notions used to state the properties\<close>

text \<open>The icon \<^verbatim>\<open>__deselectMarker\<close> writes (lines 199 to 201): it reads the cursor.\<close>

definition restore_icon :: "nav \<Rightarrow> icon option" where
  "restore_icon s =
     (if markerIcons s = [] then deselectedMarkerIcon s
      else Option.bind (js_index (markerIcons s) (currentMarker s)) id)"

text \<open>The cursor \<^verbatim>\<open>__iterateMarkers\<close> starts from, after its line 167.\<close>

definition step_cursor :: "nav \<Rightarrow> int" where
  "step_cursor s = (if marker_list s = [] then 0 else currentMarker s)"

definition direction :: "bool \<Rightarrow> int" where
  "direction shift = (if shift then - 1 else 1)"

text \<open>The host calls of \<^verbatim>\<open>__selectMarker\<close> and of \<^verbatim>\<open>__deselectMarker\<close>, in order.\<close>

definition select_effects :: "nav \<Rightarrow> marker_ref option \<Rightarrow> effect list" where
  "select_effects s marker =
     (case marker of None \<Rightarrow> []
      | Some m \<Rightarrow> [SetIcon m (selectedMarkerIcon s), PanTo (position (store s m)),
                   AddDomListener (next_listener s) m])"

definition deselect_effects :: "nav \<Rightarrow> listener_ref option \<Rightarrow> marker_ref option \<Rightarrow> effect list" where
  "deselect_effects s l marker =
     (case marker of None \<Rightarrow> []
      | Some m \<Rightarrow> SetIcon m (restore_icon s) # (case l of None \<Rightarrow> [] | Some k \<Rightarrow> [Remove k]))"

text \<open>The boundary checks of the observer (lines 133 to 145), on the stepped cursor.\<close>

definition clamp_cursor :: "int \<Rightarrow> bool \<Rightarrow> int \<Rightarrow> int" where
  "clamp_cursor len shift c =
     (if c \<ge> len \<and> \<not> shift then len else if c \<le> - 1 \<and> shift then - 1 else c)"

definition suppressed :: "int \<Rightarrow> bool \<Rightarrow> int \<Rightarrow> bool" where
  "suppressed len shift c = (\<not> (c \<ge> len \<and> \<not> shift) \<and> \<not> (c \<le> - 1 \<and> shift))"

definition in_range :: "nav \<Rightarrow> bool" where
  "in_range s \<longleftrightarrow> 0 \<le> currentMarker s \<and> currentMarker s < int (length (marker_list s))"

text \<open>
  The invariant of the navigation as long as the stored array is the one given at
  initialization and the host has not changed it: the markers are pairwise different objects, the cursor is in
  \<open>[-1, length]\<close>, the marker under the cursor is the only one that carries the selected
  icon, no icon that deselection restores is the selected icon, the Enter listener of the
  marker under the cursor is the only one attached, and the cursor is on a marker only while
  the container has the focus (\<open>f\<close>).
\<close>

definition nav_inv :: "nav \<Rightarrow> bool \<Rightarrow> bool" where
  "nav_inv s f \<longleftrightarrow>
     distinct (marker_list s) \<and> observer_markers s = markers s \<and>
     - 1 \<le> currentMarker s \<and> currentMarker s \<le> int (length (marker_list s)) \<and>
     (\<forall>i < length (marker_list s).
        (icon (store s (marker_list s ! i)) = selectedMarkerIcon s) = (int i = currentMarker s)) \<and>
     (markerIcons s = [] \<longrightarrow> deselectedMarkerIcon s \<noteq> selectedMarkerIcon s) \<and>
     (markerIcons s \<noteq> [] \<longrightarrow>
        length (markerIcons s) = length (marker_list s) \<and>
        selectedMarkerIcon s \<notin> set (markerIcons s)) \<and>
     (in_range s \<longrightarrow>
        (\<exists>l. previousMarkerListener s = Some l \<and> l < next_listener s \<and>
             listeners s = [(l, marker_list s ! nat (currentMarker s))])) \<and>
     (\<not> in_range s \<longrightarrow> listeners s = []) \<and>
     (\<not> f \<longrightarrow> \<not> in_range s)"

definition page_inv :: "page \<Rightarrow> bool" where
  "page_inv w = nav_inv (nav_of w) (focused w)"

subsection \<open>A page with three markers\<close>

text \<open>
  Array \<open>0\<close> holds the markers \<open>0\<close>, \<open>1\<close> and \<open>2\<close>; array \<open>1\<close> is another array with the
  same markers; array \<open>2\<close> holds marker \<open>0\<close> alone; every other array is empty.
\<close>

definition ex_store :: "marker_ref \<Rightarrow> marker" where
  "ex_store m = \<lparr>icon = None, position = (int m, 0)\<rparr>"

definition ex_arrays :: "array_ref \<Rightarrow> marker_ref list" where
  "ex_arrays a = (if a = 0 \<or> a = 1 then [0, 1, 2] else if a = 2 then [0] else [])"

definition ex_icons :: "icons option" where
  "ex_icons = Some \<lparr>selected = Some ''selected.png'', deselected = Some ''deselected.png''\<rparr>"

definition ex_page :: page where
  "ex_page = init_page ex_store ex_arrays 0 ex_icons False"

definition ex_page_one :: page where
  "ex_page_one = init_page ex_store ex_arrays 2 ex_icons False"

definition Tab_key :: event where
  "Tab_key = KeyDown ''Tab'' False"

definition Shift_Tab_key :: event where
  "Shift_Tab_key = KeyDown ''Tab'' True"

definition Enter_key :: event where
  "Enter_key = KeyDown ''Enter'' False"

section \<open>Properties\<close>

subsection \<open>What each function does\<close>

lemma selectMarker_None: "selectMarker None s = (None, s)"
  by (simp add: selectMarker_def)

lemma selectMarker_Some:
  "selectMarker (Some m) s =
     (Some (next_listener s),
      s\<lparr>store := (store s)(m := (store s m)\<lparr>icon := selectedMarkerIcon s\<rparr>),
        listeners := listeners s @ [(next_listener s, m)],
        next_listener := Suc (next_listener s),
        effects := effects s @ [SetIcon m (selectedMarkerIcon s), PanTo (position (store s m)),
                                AddDomListener (next_listener s) m]\<rparr>)"
  by (simp add: selectMarker_def setIcon_def panTo_def addClickMarkerViaEnterKey_def)

lemma deselectMarker_None: "deselectMarker l None s = s"
  by (simp add: deselectMarker_def)

lemma deselectMarker_Some:
  "deselectMarker l (Some m) s =
     s\<lparr>store := (store s)(m := (store s m)\<lparr>icon := restore_icon s\<rparr>),
       listeners := (case l of None \<Rightarrow> listeners s
                     | Some k \<Rightarrow> filter (\<lambda>p. fst p \<noteq> k) (listeners s)),
       effects := effects s @ SetIcon m (restore_icon s) #
                    (case l of None \<Rightarrow> [] | Some k \<Rightarrow> [Remove k])\<rparr>"
  by (simp add: deselectMarker_def setIcon_def remove_listener_def restore_icon_def Let_def
      split: option.splits)

lemma foldl_enter_callback:
  "foldl (\<lambda>t p. enter_callback e a (snd p) t) s ps =
     s\<lparr>effects := effects s @
         (if a \<and> key e = ''Enter'' then map (\<lambda>p. TriggerClick (snd p)) ps else [])\<rparr>"
  by (induction ps arbitrary: s) (simp_all add: enter_callback_def)

lemma keydown_Enter:
  "key e = ''Enter'' \<Longrightarrow>
   keydown e a s =
     (s\<lparr>effects := effects s @
          (if a then map (\<lambda>p. TriggerClick (snd p)) (listeners s) else [])\<rparr>, False)"
  by (simp add: keydown_def observer_def foldl_enter_callback)

lemma keydown_Tab:
  "key e = ''Tab'' \<Longrightarrow> keydown e a s = observer e a s"
  by (simp add: keydown_def foldl_enter_callback split: prod.splits)

lemma restore_icon_upd [simp]:
  "restore_icon (s\<lparr>store := a\<rparr>) = restore_icon s"
  "restore_icon (s\<lparr>listeners := b\<rparr>) = restore_icon s"
  "restore_icon (s\<lparr>next_listener := c\<rparr>) = restore_icon s"
  "restore_icon (s\<lparr>effects := d\<rparr>) = restore_icon s"
  "restore_icon (s\<lparr>previousMarkerListener := f\<rparr>) = restore_icon s"
  by (simp_all add: restore_icon_def)

lemma selectMarker_fields [simp]:
  "currentMarker (snd (selectMarker x s)) = currentMarker s"
  "markers (snd (selectMarker x s)) = markers s"
  "arrays (snd (selectMarker x s)) = arrays s"
  "observer_markers (snd (selectMarker x s)) = observer_markers s"
  "markerIcons (snd (selectMarker x s)) = markerIcons s"
  "selectedMarkerIcon (snd (selectMarker x s)) = selectedMarkerIcon s"
  "deselectedMarkerIcon (snd (selectMarker x s)) = deselectedMarkerIcon s"
  "previousMarkerListener (snd (selectMarker x s)) = previousMarkerListener s"
  by (cases x; simp add: selectMarker_None selectMarker_Some)+

lemma deselectMarker_fields [simp]:
  "currentMarker (deselectMarker l x s) = currentMarker s"
  "markers (deselectMarker l x s) = markers s"
  "arrays (deselectMarker l x s) = arrays s"
  "observer_markers (deselectMarker l x s) = observer_markers s"
  "markerIcons (deselectMarker l x s) = markerIcons s"
  "selectedMarkerIcon (deselectMarker l x s) = selectedMarkerIcon s"
  "deselectedMarkerIcon (deselectMarker l x s) = deselectedMarkerIcon s"
  "previousMarkerListener (deselectMarker l x s) = previousMarkerListener s"
  "next_listener (deselectMarker l x s) = next_listener s"
  by (cases x; simp add: deselectMarker_None deselectMarker_Some)+

lemma selectMarker_cursor_upd:
  "selectMarker x (s\<lparr>currentMarker := c\<rparr>) =
     (fst (selectMarker x s), (snd (selectMarker x s))\<lparr>currentMarker := c\<rparr>)"
  by (cases x) (simp_all add: selectMarker_None selectMarker_Some)

lemma iterateMarkers_result:
  "iterateMarkers l sh s =
     (let c = step_cursor s;
          r = selectMarker (js_index (marker_list s) (c + direction sh)) (s\<lparr>currentMarker := c\<rparr>)
      in (fst r, (deselectMarker l (js_index (marker_list s) c) (snd r))
                   \<lparr>currentMarker := c + direction sh\<rparr>))"
  by (simp add: iterateMarkers_def step_cursor_def direction_def Let_def case_prod_beta)

lemma iterateMarkers_cursor:
  "currentMarker (snd (iterateMarkers l sh s)) = step_cursor s + direction sh"
  by (simp add: iterateMarkers_result Let_def)

lemma iterateMarkers_fst:
  "fst (iterateMarkers l sh s) =
     (case js_index (marker_list s) (step_cursor s + direction sh) of
        None \<Rightarrow> None | Some m \<Rightarrow> Some (next_listener s))"
  by (simp add: iterateMarkers_result Let_def selectMarker_None selectMarker_Some
      split: option.splits)

lemma iterateMarkers_effects:
  "effects (snd (iterateMarkers l sh s)) =
     effects s
     @ select_effects s (js_index (marker_list s) (step_cursor s + direction sh))
     @ deselect_effects (s\<lparr>currentMarker := step_cursor s\<rparr>) l
         (js_index (marker_list s) (step_cursor s))"
  by (cases "js_index (marker_list s) (step_cursor s + direction sh)";
      cases "js_index (marker_list s) (step_cursor s)")
     (simp_all add: iterateMarkers_result Let_def select_effects_def deselect_effects_def
        selectMarker_None selectMarker_Some deselectMarker_None deselectMarker_Some)

lemma iterateMarkers_lists [simp]:
  "markers (snd (iterateMarkers l sh s)) = markers s"
  "arrays (snd (iterateMarkers l sh s)) = arrays s"
  "observer_markers (snd (iterateMarkers l sh s)) = observer_markers s"
  "markerIcons (snd (iterateMarkers l sh s)) = markerIcons s"
  "selectedMarkerIcon (snd (iterateMarkers l sh s)) = selectedMarkerIcon s"
  "deselectedMarkerIcon (snd (iterateMarkers l sh s)) = deselectedMarkerIcon s"
  by (simp_all add: iterateMarkers_result Let_def)

lemma observer_Tab_active:
  "key e = ''Tab'' \<Longrightarrow>
   observer e True s =
     (let r = iterateMarkers (previousMarkerListener s) (shiftKey e) s;
          len = int (length (observer_list s))
      in ((snd r)\<lparr>previousMarkerListener := fst r,
                  currentMarker := clamp_cursor len (shiftKey e) (currentMarker (snd r))\<rparr>,
          suppressed len (shiftKey e) (currentMarker (snd r))))"
  by (cases "shiftKey e")
     (simp_all add: observer_def Let_def clamp_cursor_def suppressed_def case_prod_beta)

lemma observer_Tab_inactive:
  "key e = ''Tab'' \<Longrightarrow>
   observer e False s =
     (s\<lparr>currentMarker := (if shiftKey e then int (length (observer_list s)) else - 1)\<rparr>,
      False)"
  by (simp add: observer_def Let_def)

lemma observer_other:
  "key e \<noteq> ''Tab'' \<Longrightarrow> observer e a s = (s, False)"
  by (simp add: observer_def Let_def)

subsection \<open>The invariant is kept by every event but a re-bind\<close>

lemma restore_icon_not_selected:
  assumes "nav_inv s f" and "0 \<le> currentMarker s" and "currentMarker s < int (length (marker_list s))"
  shows "restore_icon s \<noteq> selectedMarkerIcon s"
proof (cases "markerIcons s = []")
  case True
  with assms show ?thesis by (simp add: nav_inv_def restore_icon_def)
next
  case False
  with assms have len: "length (markerIcons s) = length (marker_list s)"
    and notin: "selectedMarkerIcon s \<notin> set (markerIcons s)"
    by (simp_all add: nav_inv_def)
  from assms len have "markerIcons s ! nat (currentMarker s) \<in> set (markerIcons s)"
    by simp
  with notin have "markerIcons s ! nat (currentMarker s) \<noteq> selectedMarkerIcon s"
    by metis
  with False assms len show ?thesis
    by (simp add: restore_icon_def js_index_def)
qed

lemma nth_eq_cursor:
  assumes "distinct ms" and "0 \<le> c" and "c < int (length ms)" and "i < length ms"
  shows "(ms ! i = ms ! nat c) = (int i = c)"
  using assms by (auto simp add: nth_eq_iff_index_eq)

lemma filter_old_listener:
  "(l::nat) < n \<Longrightarrow> filter (\<lambda>p. fst p \<noteq> l) ([(l, m)] @ [(n, m')]) = [(n, m')]"
  by auto

lemma step_both:
  assumes inv: "nav_inv s True" and tab: "key e = ''Tab''"
    and cur: "in_range s"
    and nxt: "0 \<le> currentMarker s + direction (shiftKey e)"
             "currentMarker s + direction (shiftKey e) < int (length (marker_list s))"
  shows "nav_inv (fst (observer e True s)) True"
proof -
  let ?c = "currentMarker s" and ?d = "direction (shiftKey e)" and ?ms = "marker_list s"
  let ?m = "?ms ! nat ?c" and ?m' = "?ms ! nat (?c + ?d)"
  have ne: "?ms \<noteq> []" using cur by (auto simp add: in_range_def)
  have sc: "step_cursor s = ?c" using ne by (simp add: step_cursor_def)
  have d: "?d \<noteq> 0" by (simp add: direction_def)
  have dist: "distinct ?ms" using inv by (simp add: nav_inv_def)
  have c: "0 \<le> ?c" "?c < int (length ?ms)" using cur by (simp_all add: in_range_def)
  obtain l where l: "previousMarkerListener s = Some l" "l < next_listener s"
      "listeners s = [(l, ?m)]"
    using inv cur by (auto simp add: nav_inv_def)
  have jc: "js_index ?ms ?c = Some ?m"
    using c by (simp add: js_index_def)
  have jn: "js_index ?ms (?c + ?d) = Some ?m'"
    using nxt by (simp add: js_index_def)
  have ric: "restore_icon s \<noteq> selectedMarkerIcon s"
    using restore_icon_not_selected[OF inv] c by simp
  have cl: "clamp_cursor (int (length ?ms)) (shiftKey e) (?c + ?d) = ?c + ?d"
    using nxt by (simp add: clamp_cursor_def)
  have om: "observer_markers s = markers s" using inv by (simp add: nav_inv_def)
  define s' where "s' = fst (observer e True s)"
  note unf = s'_def observer_Tab_active[OF tab] Let_def iterateMarkers_result sc jc jn
        selectMarker_Some deselectMarker_Some
  have same: "markers s' = markers s" "arrays s' = arrays s" "observer_markers s' = markers s"
    "markerIcons s' = markerIcons s"
    "selectedMarkerIcon s' = selectedMarkerIcon s"
    "deselectedMarkerIcon s' = deselectedMarkerIcon s"
    by (simp_all add: unf om)
  have cm: "currentMarker s' = ?c + ?d"
    by (simp add: unf om cl)
  have st: "store s' = (store s)(?m' := (store s ?m')\<lparr>icon := selectedMarkerIcon s\<rparr>,
                           ?m := (((store s)(?m' := (store s ?m')\<lparr>icon := selectedMarkerIcon s\<rparr>)) ?m)
                                   \<lparr>icon := restore_icon s\<rparr>)"
    by (simp add: unf)
  have ls: "listeners s' = [(next_listener s, ?m')]"
    "previousMarkerListener s' = Some (next_listener s)"
    "next_listener s' = Suc (next_listener s)"
    using l(2) by (simp_all add: unf l(1,3))
  have old: "\<And>i. i < length ?ms \<Longrightarrow> (?ms ! i = ?m) = (int i = ?c)"
    using nth_eq_cursor[OF dist c] by simp
  have new: "\<And>i. i < length ?ms \<Longrightarrow> (?ms ! i = ?m') = (int i = ?c + ?d)"
    using nth_eq_cursor[OF dist nxt] by simp
  have sel: "\<And>i. i < length ?ms \<Longrightarrow>
      (icon (store s (?ms ! i)) = selectedMarkerIcon s) = (int i = ?c)"
    using inv by (simp add: nav_inv_def)
  have icons: "\<forall>i < length ?ms.
      (icon (store s' (?ms ! i)) = selectedMarkerIcon s) = (int i = ?c + ?d)"
    using d ric by (simp add: st old new sel)
  have "nav_inv s' True"
    unfolding nav_inv_def in_range_def
    using inv icons nxt
    by (simp add: same cm ls nav_inv_def)
  then show ?thesis by (simp add: s'_def)
qed

lemma step_leave:
  assumes inv: "nav_inv s True" and tab: "key e = ''Tab''"
    and cur: "in_range s"
    and nxt: "\<not> (0 \<le> currentMarker s + direction (shiftKey e) \<and>
                 currentMarker s + direction (shiftKey e) < int (length (marker_list s)))"
  shows "nav_inv (fst (observer e True s)) True"
proof -
  let ?c = "currentMarker s" and ?d = "direction (shiftKey e)" and ?ms = "marker_list s"
  let ?m = "?ms ! nat ?c"
  have ne: "?ms \<noteq> []" using cur by (auto simp add: in_range_def)
  have sc: "step_cursor s = ?c" using ne by (simp add: step_cursor_def)
  have dist: "distinct ?ms" using inv by (simp add: nav_inv_def)
  have c: "0 \<le> ?c" "?c < int (length ?ms)" using cur by (simp_all add: in_range_def)
  obtain l where l: "previousMarkerListener s = Some l" "listeners s = [(l, ?m)]"
    using inv cur by (auto simp add: nav_inv_def)
  have jc: "js_index ?ms ?c = Some ?m"
    using c by (simp add: js_index_def)
  have jn: "js_index ?ms (?c + ?d) = None"
    using nxt by (simp add: js_index_def)
  have ric: "restore_icon s \<noteq> selectedMarkerIcon s"
    using restore_icon_not_selected[OF inv] c by simp
  have cl: "clamp_cursor (int (length ?ms)) (shiftKey e) (?c + ?d) =
      (if shiftKey e then - 1 else int (length ?ms))"
    using nxt c by (cases "shiftKey e") (simp_all add: clamp_cursor_def direction_def)
  have om: "observer_markers s = markers s" using inv by (simp add: nav_inv_def)
  define s' where "s' = fst (observer e True s)"
  note unf = s'_def observer_Tab_active[OF tab] Let_def iterateMarkers_result sc jc jn
        selectMarker_None deselectMarker_Some
  have same: "markers s' = markers s" "arrays s' = arrays s" "observer_markers s' = markers s"
    "markerIcons s' = markerIcons s"
    "selectedMarkerIcon s' = selectedMarkerIcon s"
    "deselectedMarkerIcon s' = deselectedMarkerIcon s"
    by (simp_all add: unf om)
  have cm: "currentMarker s' = (if shiftKey e then - 1 else int (length ?ms))"
    by (simp add: unf om cl)
  have st: "store s' = (store s)(?m := (store s ?m)\<lparr>icon := restore_icon s\<rparr>)"
    by (simp add: unf)
  have ls: "listeners s' = []"
    by (simp add: unf l)
  have old: "\<And>i. i < length ?ms \<Longrightarrow> (?ms ! i = ?m) = (int i = ?c)"
    using nth_eq_cursor[OF dist c] by simp
  have sel: "\<And>i. i < length ?ms \<Longrightarrow>
      (icon (store s (?ms ! i)) = selectedMarkerIcon s) = (int i = ?c)"
    using inv by (simp add: nav_inv_def)
  have icons: "\<forall>i < length ?ms. icon (store s' (?ms ! i)) \<noteq> selectedMarkerIcon s"
    using ric by (simp add: st old sel)
  have "nav_inv s' True"
    unfolding nav_inv_def in_range_def
    using inv icons
    by (auto simp add: same cm ls nav_inv_def)
  then show ?thesis by (simp add: s'_def)
qed

lemma step_enter:
  assumes inv: "nav_inv s True" and tab: "key e = ''Tab''"
    and cur: "\<not> in_range s"
    and nxt: "0 \<le> currentMarker s + direction (shiftKey e)"
             "currentMarker s + direction (shiftKey e) < int (length (marker_list s))"
  shows "nav_inv (fst (observer e True s)) True"
proof -
  let ?c = "currentMarker s" and ?d = "direction (shiftKey e)" and ?ms = "marker_list s"
  let ?m' = "?ms ! nat (?c + ?d)"
  have ne: "?ms \<noteq> []" using nxt by auto
  have sc: "step_cursor s = ?c" using ne by (simp add: step_cursor_def)
  have dist: "distinct ?ms" using inv by (simp add: nav_inv_def)
  have l: "listeners s = []" using inv cur by (simp add: nav_inv_def)
  have jc: "js_index ?ms ?c = None"
    using cur by (simp add: js_index_def in_range_def)
  have jn: "js_index ?ms (?c + ?d) = Some ?m'"
    using nxt by (simp add: js_index_def)
  have cl: "clamp_cursor (int (length ?ms)) (shiftKey e) (?c + ?d) = ?c + ?d"
    using nxt by (simp add: clamp_cursor_def)
  have om: "observer_markers s = markers s" using inv by (simp add: nav_inv_def)
  define s' where "s' = fst (observer e True s)"
  note unf = s'_def observer_Tab_active[OF tab] Let_def iterateMarkers_result sc jc jn
        selectMarker_Some deselectMarker_None
  have same: "markers s' = markers s" "arrays s' = arrays s" "observer_markers s' = markers s"
    "markerIcons s' = markerIcons s"
    "selectedMarkerIcon s' = selectedMarkerIcon s"
    "deselectedMarkerIcon s' = deselectedMarkerIcon s"
    by (simp_all add: unf om)
  have cm: "currentMarker s' = ?c + ?d"
    by (simp add: unf om cl)
  have st: "store s' = (store s)(?m' := (store s ?m')\<lparr>icon := selectedMarkerIcon s\<rparr>)"
    by (simp add: unf)
  have ls: "listeners s' = [(next_listener s, ?m')]"
    "previousMarkerListener s' = Some (next_listener s)"
    "next_listener s' = Suc (next_listener s)"
    by (simp_all add: unf l)
  have new: "\<And>i. i < length ?ms \<Longrightarrow> (?ms ! i = ?m') = (int i = ?c + ?d)"
    using nth_eq_cursor[OF dist nxt] by simp
  have sel: "\<And>i. i < length ?ms \<Longrightarrow> icon (store s (?ms ! i)) \<noteq> selectedMarkerIcon s"
    using inv cur by (auto simp add: nav_inv_def in_range_def)
  have icons: "\<forall>i < length ?ms.
      (icon (store s' (?ms ! i)) = selectedMarkerIcon s) = (int i = ?c + ?d)"
    by (simp add: st new sel)
  have "nav_inv s' True"
    unfolding nav_inv_def in_range_def
    using inv icons nxt
    by (simp add: same cm ls nav_inv_def)
  then show ?thesis by (simp add: s'_def)
qed

lemma step_outside:
  assumes inv: "nav_inv s True" and tab: "key e = ''Tab''"
    and cur: "\<not> in_range s"
    and nxt: "\<not> (0 \<le> step_cursor s + direction (shiftKey e) \<and>
                 step_cursor s + direction (shiftKey e) < int (length (marker_list s)))"
  shows "nav_inv (fst (observer e True s)) True"
proof -
  let ?c = "step_cursor s" and ?d = "direction (shiftKey e)" and ?ms = "marker_list s"
  have l: "listeners s = []" using inv cur by (simp add: nav_inv_def)
  have jc: "js_index ?ms ?c = None"
    using cur by (auto simp add: js_index_def in_range_def step_cursor_def)
  have jn: "js_index ?ms (?c + ?d) = None"
    using nxt by (simp add: js_index_def)
  have bounds: "- 1 \<le> currentMarker s" "currentMarker s \<le> int (length ?ms)"
    using inv by (simp_all add: nav_inv_def)
  have cl: "clamp_cursor (int (length ?ms)) (shiftKey e) (?c + ?d) =
      (if shiftKey e then - 1 else int (length ?ms))"
    using nxt cur bounds
    by (auto simp add: clamp_cursor_def direction_def step_cursor_def in_range_def
        split: if_splits)
  have om: "observer_markers s = markers s" using inv by (simp add: nav_inv_def)
  define s' where "s' = fst (observer e True s)"
  note unf = s'_def observer_Tab_active[OF tab] Let_def iterateMarkers_result jc jn
        selectMarker_None deselectMarker_None
  have same: "markers s' = markers s" "arrays s' = arrays s" "observer_markers s' = markers s"
    "markerIcons s' = markerIcons s"
    "selectedMarkerIcon s' = selectedMarkerIcon s"
    "deselectedMarkerIcon s' = deselectedMarkerIcon s"
    "store s' = store s" "listeners s' = []"
    by (simp_all add: unf om l)
  have cm: "currentMarker s' = (if shiftKey e then - 1 else int (length ?ms))"
    by (simp add: unf om cl)
  have sel: "\<And>i. i < length ?ms \<Longrightarrow> icon (store s (?ms ! i)) \<noteq> selectedMarkerIcon s"
    using inv cur by (auto simp add: nav_inv_def in_range_def)
  have "nav_inv s' True"
    unfolding nav_inv_def in_range_def
    using inv sel
    by (auto simp add: same cm nav_inv_def)
  then show ?thesis by (simp add: s'_def)
qed

lemma observer_tab_inv:
  assumes inv: "nav_inv s True" and tab: "key e = ''Tab''"
  shows "nav_inv (fst (observer e True s)) True"
proof (cases "in_range s")
  case True
  then show ?thesis
    using step_both[OF inv tab] step_leave[OF inv tab] by blast
next
  case False
  show ?thesis
  proof (cases "marker_list s = []")
    case True
    then show ?thesis using step_outside[OF inv tab False] by simp
  next
    case ne: False
    then have "step_cursor s = currentMarker s" by (simp add: step_cursor_def)
    then show ?thesis
      using step_enter[OF inv tab False] step_outside[OF inv tab False] by metis
  qed
qed

lemma nav_inv_effects [simp]: "nav_inv (s\<lparr>effects := x\<rparr>) f = nav_inv s f"
  by (simp add: nav_inv_def in_range_def)

lemma nav_inv_focus: "nav_inv s f \<Longrightarrow> nav_inv s True"
  by (simp add: nav_inv_def)

lemma arm_inv:
  assumes inv: "nav_inv s False" and tab: "key e = ''Tab''"
  shows "nav_inv (fst (observer e False s)) False"
proof -
  have out: "\<not> in_range s" using inv by (simp add: nav_inv_def)
  have sel: "\<And>i. i < length (marker_list s) \<Longrightarrow>
      icon (store s (marker_list s ! i)) \<noteq> selectedMarkerIcon s"
    using inv out by (auto simp add: nav_inv_def in_range_def)
  show ?thesis
    unfolding nav_inv_def in_range_def
    using inv out sel
    by (auto simp add: observer_Tab_inactive[OF tab] nav_inv_def in_range_def)
qed

lemma keydown_inv:
  assumes inv: "nav_inv s f"
  shows "nav_inv (fst (keydown e f s)) f"
proof (cases "key e = ''Tab''")
  case True
  show ?thesis
  proof (cases f)
    case True
    with inv \<open>key e = ''Tab''\<close> show ?thesis
      by (simp add: keydown_Tab observer_tab_inv)
  next
    case False
    with inv \<open>key e = ''Tab''\<close> show ?thesis
      by (simp add: keydown_Tab arm_inv)
  qed
next
  case False
  with inv show ?thesis
    by (simp add: keydown_def observer_other foldl_enter_callback)
qed

lemma focusout_inv:
  assumes inv: "nav_inv s f"
  shows "nav_inv (focusout s) False"
proof (cases "in_range s")
  case cur: True
  let ?c = "currentMarker s" and ?ms = "marker_list s"
  let ?m = "?ms ! nat ?c"
  have dist: "distinct ?ms" using inv by (simp add: nav_inv_def)
  have c: "0 \<le> ?c" "?c < int (length ?ms)" using cur by (simp_all add: in_range_def)
  obtain l where l: "previousMarkerListener s = Some l" "listeners s = [(l, ?m)]"
    using inv cur by (auto simp add: nav_inv_def)
  have jc: "js_index ?ms ?c = Some ?m"
    using c by (simp add: js_index_def)
  have ric: "restore_icon s \<noteq> selectedMarkerIcon s"
    using restore_icon_not_selected[OF inv] c by simp
  define s' where "s' = focusout s"
  note unf = s'_def focusout_def jc deselectMarker_Some
  have same: "markers s' = markers s" "arrays s' = arrays s"
    "observer_markers s' = observer_markers s"
    "markerIcons s' = markerIcons s"
    "selectedMarkerIcon s' = selectedMarkerIcon s"
    "deselectedMarkerIcon s' = deselectedMarkerIcon s"
    "currentMarker s' = - 1" "listeners s' = []"
    by (simp_all add: unf l)
  have st: "store s' = (store s)(?m := (store s ?m)\<lparr>icon := restore_icon s\<rparr>)"
    by (simp add: unf)
  have old: "\<And>i. i < length ?ms \<Longrightarrow> (?ms ! i = ?m) = (int i = ?c)"
    using nth_eq_cursor[OF dist c] by simp
  have sel: "\<And>i. i < length ?ms \<Longrightarrow>
      (icon (store s (?ms ! i)) = selectedMarkerIcon s) = (int i = ?c)"
    using inv by (simp add: nav_inv_def)
  have icons: "\<forall>i < length ?ms. icon (store s' (?ms ! i)) \<noteq> selectedMarkerIcon s"
    using ric by (simp add: st old sel)
  have "nav_inv s' False"
    unfolding nav_inv_def in_range_def
    using inv icons
    by (auto simp add: same nav_inv_def)
  then show ?thesis by (simp add: s'_def)
next
  case cur: False
  have jc: "js_index (marker_list s) (currentMarker s) = None"
    using cur by (simp add: js_index_def in_range_def)
  have sel: "\<And>i. i < length (marker_list s) \<Longrightarrow>
      icon (store s (marker_list s ! i)) \<noteq> selectedMarkerIcon s"
    using inv cur by (auto simp add: nav_inv_def in_range_def)
  show ?thesis
    unfolding nav_inv_def in_range_def
    using inv cur sel
    by (auto simp add: focusout_def jc deselectMarker_None nav_inv_def in_range_def)
qed

lemma step_inv:
  assumes "page_inv w" and "\<not> host_change ev"
  shows "page_inv (step w ev)"
proof (cases ev)
  case (KeyDown k sh)
  with assms(1) keydown_inv[of "nav_of w" "focused w" "\<lparr>key = k, shiftKey = sh\<rparr>"]
  show ?thesis by (simp add: page_inv_def case_prod_beta)
next
  case FocusIn
  with assms(1) show ?thesis by (simp add: page_inv_def nav_inv_focus)
next
  case FocusOut
  with assms(1) show ?thesis by (simp add: page_inv_def focusout_inv)
next
  case (Rebind a)
  with assms(2) show ?thesis by simp
next
  case (Mutate a ms)
  with assms(2) show ?thesis by simp
qed

lemma run_inv:
  "page_inv w \<Longrightarrow> \<forall>ev \<in> set es. \<not> host_change ev \<Longrightarrow> page_inv (run w es)"
  unfolding run_def
  by (induction es arbitrary: w) (simp_all add: step_inv)

lemma filter_single:
  "distinct xs \<Longrightarrow> a \<in> set xs \<Longrightarrow> \<forall>x \<in> set xs. P x = (x = a) \<Longrightarrow> filter P xs = [a]"
  by (induction xs) (auto simp add: filter_empty_conv)

lemma inv_selected:
  assumes inv: "nav_inv s f"
  shows "selected_markers s =
           (case js_index (marker_list s) (currentMarker s) of None \<Rightarrow> [] | Some m \<Rightarrow> [m])"
proof (cases "in_range s")
  case cur: True
  let ?c = "currentMarker s" and ?ms = "marker_list s"
  have dist: "distinct ?ms" using inv by (simp add: nav_inv_def)
  have c: "0 \<le> ?c" "?c < int (length ?ms)" using cur by (simp_all add: in_range_def)
  have jc: "js_index ?ms ?c = Some (?ms ! nat ?c)"
    using c by (simp add: js_index_def)
  have mem: "?ms ! nat ?c \<in> set ?ms" using c by simp
  have "\<forall>x \<in> set ?ms. (icon (store s x) = selectedMarkerIcon s) = (x = ?ms ! nat ?c)"
  proof
    fix x assume "x \<in> set ?ms"
    then obtain i where i: "i < length ?ms" "x = ?ms ! i"
      by (auto simp add: in_set_conv_nth)
    with inv have "(icon (store s x) = selectedMarkerIcon s) = (int i = ?c)"
      by (simp add: nav_inv_def)
    with i nth_eq_cursor[OF dist c i(1)]
    show "(icon (store s x) = selectedMarkerIcon s) = (x = ?ms ! nat ?c)" by simp
  qed
  from filter_single[OF dist mem this] show ?thesis
    by (simp add: selected_markers_def jc)
next
  case cur: False
  have jc: "js_index (marker_list s) (currentMarker s) = None"
    using cur by (simp add: js_index_def in_range_def)
  have "\<forall>x \<in> set (marker_list s). icon (store s x) \<noteq> selectedMarkerIcon s"
    using inv cur by (auto simp add: nav_inv_def in_range_def in_set_conv_nth)
  then show ?thesis
    by (simp add: selected_markers_def jc filter_empty_conv)
qed

lemma init_inv:
  assumes "distinct (arrs a)"
    and "selected_markers (keyNavInit h arrs a ics flag) = []"
    and "flag \<and> arrs a \<noteq> [] \<or>
         deselectedMarkerIcon (keyNavInit h arrs a ics flag) \<noteq>
         selectedMarkerIcon (keyNavInit h arrs a ics flag)"
  shows "page_inv (init_page h arrs a ics flag)"
  using assms
  unfolding page_inv_def nav_inv_def in_range_def init_page_def
  by (auto simp add: keyNavInit_def selected_markers_def getMarkerIconsFromMarkers_def
      filter_empty_conv)

lemma no_click_for_other_markers:
  "\<forall>p \<in> set ps. snd p \<noteq> m \<Longrightarrow>
   filter (\<lambda>x. x = TriggerClick m) (map (\<lambda>p. TriggerClick (snd p)) ps) = []"
  by (induction ps) auto

subsection \<open>Runs of events\<close>

lemma keydown_lists [simp]:
  "markers (fst (keydown e a s)) = markers s"
  "arrays (fst (keydown e a s)) = arrays s"
  "observer_markers (fst (keydown e a s)) = observer_markers s"
proof -
  have "markers (fst (keydown e a s)) = markers s \<and>
        arrays (fst (keydown e a s)) = arrays s \<and>
        observer_markers (fst (keydown e a s)) = observer_markers s"
  proof (cases "key e = ''Tab''")
    case True
    then show ?thesis
      by (cases a) (simp_all add: keydown_Tab observer_Tab_active observer_Tab_inactive Let_def)
  next
    case False
    then show ?thesis by (simp add: keydown_def observer_other foldl_enter_callback)
  qed
  then show "markers (fst (keydown e a s)) = markers s"
    and "arrays (fst (keydown e a s)) = arrays s"
    and "observer_markers (fst (keydown e a s)) = observer_markers s" by simp_all
qed

lemma focusout_lists [simp]:
  "markers (focusout s) = markers s"
  "arrays (focusout s) = arrays s"
  "observer_markers (focusout s) = observer_markers s"
  by (simp_all add: focusout_def)

lemma updateMarkerCount_lists [simp]:
  "markers (updateMarkerCount a s) = a"
  "arrays (updateMarkerCount a s) = arrays s"
  "observer_markers (updateMarkerCount a s) = observer_markers s"
  by (simp_all add: updateMarkerCount_def)

lemma keydown_Tab_cursor:
  assumes "key e = ''Tab''"
  shows "currentMarker (fst (keydown e True s)) =
           clamp_cursor (int (length (observer_list s))) (shiftKey e)
             (step_cursor s + direction (shiftKey e))"
    and "snd (keydown e True s) =
           suppressed (int (length (observer_list s))) (shiftKey e)
             (step_cursor s + direction (shiftKey e))"
  using assms
  by (simp_all add: keydown_Tab observer_Tab_active Let_def iterateMarkers_cursor)

lemma run_snoc: "run w (es @ [ev]) = step (run w es) ev"
  by (simp add: run_def)

lemma step_observer_markers [simp]:
  "observer_markers (nav_of (step w ev)) = observer_markers (nav_of w)"
  by (cases ev) (simp_all add: case_prod_beta)

lemma step_arrays:
  "\<not> mutates a ev \<Longrightarrow> arrays (nav_of (step w ev)) a = arrays (nav_of w) a"
  by (cases ev) (simp_all add: case_prod_beta)

lemma run_observer_array:
  "observer_markers (nav_of (run w es)) = observer_markers (nav_of w)"
  unfolding run_def
  by (induction es arbitrary: w) simp_all

lemma run_array_content:
  "\<forall>ev \<in> set es. \<not> mutates a ev \<Longrightarrow> arrays (nav_of (run w es)) a = arrays (nav_of w) a"
  unfolding run_def
  by (induction es arbitrary: w) (simp_all add: step_arrays)

lemma tab_forward_prefix:
  assumes "k \<le> length (arrs a)"
  shows "let w = run (init_page h arrs a ics flag) (FocusIn # replicate k Tab_key) in
           currentMarker (nav_of w) = int k - 1 \<and> prevented w = replicate k True \<and>
           focused w \<and> marker_list (nav_of w) = arrs a \<and> observer_list (nav_of w) = arrs a"
  using assms
proof (induction k)
  case 0
  show ?case
    by (simp add: run_def init_page_def keyNavInit_def)
next
  case (Suc k)
  let ?w = "run (init_page h arrs a ics flag) (FocusIn # replicate k Tab_key)"
  from Suc have ih: "currentMarker (nav_of ?w) = int k - 1" "prevented ?w = replicate k True"
    "focused ?w" "marker_list (nav_of ?w) = arrs a" "observer_list (nav_of ?w) = arrs a"
    and k: "k < length (arrs a)"
    by (simp_all add: Let_def)
  have ne: "arrs a \<noteq> []" using k by auto
  have r: "run (init_page h arrs a ics flag) (FocusIn # replicate (Suc k) Tab_key) =
      step ?w Tab_key"
    using run_snoc[of "init_page h arrs a ics flag" "FocusIn # replicate k Tab_key" Tab_key]
    by (simp add: replicate_append_same)
  have t: "key \<lparr>key = ''Tab'', shiftKey = False\<rparr> = ''Tab''" by simp
  show ?case
    unfolding Let_def r
    using ih k ne keydown_Tab_cursor[OF t, of "nav_of ?w"]
    by (simp add: Tab_key_def case_prod_beta step_cursor_def direction_def clamp_cursor_def
        suppressed_def replicate_append_same)
qed

lemma tab_forward_exit:
  "let w = run (init_page h arrs a ics flag) (FocusIn # replicate (Suc (length (arrs a))) Tab_key) in
     currentMarker (nav_of w) = int (length (arrs a)) \<and>
     prevented w = replicate (length (arrs a)) True @ [False]"
proof -
  let ?w = "run (init_page h arrs a ics flag) (FocusIn # replicate (length (arrs a)) Tab_key)"
  from tab_forward_prefix[of "length (arrs a)" arrs a h ics flag]
  have ih: "currentMarker (nav_of ?w) = int (length (arrs a)) - 1"
    "prevented ?w = replicate (length (arrs a)) True"
    "focused ?w" "marker_list (nav_of ?w) = arrs a" "observer_list (nav_of ?w) = arrs a"
    by (simp_all add: Let_def)
  have r: "run (init_page h arrs a ics flag) (FocusIn # replicate (Suc (length (arrs a))) Tab_key) =
      step ?w Tab_key"
    using run_snoc[of "init_page h arrs a ics flag" "FocusIn # replicate (length (arrs a)) Tab_key" Tab_key]
    by (simp add: replicate_append_same)
  have t: "key \<lparr>key = ''Tab'', shiftKey = False\<rparr> = ''Tab''" by simp
  show ?thesis
    unfolding Let_def r
    using ih keydown_Tab_cursor[OF t, of "nav_of ?w"]
    by (simp add: Tab_key_def case_prod_beta step_cursor_def direction_def clamp_cursor_def
        suppressed_def)
qed

subsection \<open>The navigation while the host leaves the marker array alone\<close>

text \<open>
  As long as the host application neither re-binds nor changes the array, the marker under
  the cursor is the only one with the selected icon and the only one with an Enter
  listener; with a stored list as long as the observer's, a Tab in the container moves the
  cursor by one and leaves at the ends, and a Tab outside arms the cursor at the right end.
\<close>

lemma single_selection_without_host_change:
  assumes "distinct (arrs a)"
    and "selected_markers (keyNavInit h arrs a ics flag) = []"
    and "flag \<and> arrs a \<noteq> [] \<or>
         deselectedMarkerIcon (keyNavInit h arrs a ics flag) \<noteq>
         selectedMarkerIcon (keyNavInit h arrs a ics flag)"
    and "\<forall>ev \<in> set es. \<not> host_change ev"
  shows "let s = nav_of (run (init_page h arrs a ics flag) es) in
           selected_markers s =
             (case js_index (marker_list s) (currentMarker s) of None \<Rightarrow> [] | Some m \<Rightarrow> [m]) \<and>
           map snd (listeners s) =
             (case js_index (marker_list s) (currentMarker s) of None \<Rightarrow> [] | Some m \<Rightarrow> [m]) \<and>
           - 1 \<le> currentMarker s \<and> currentMarker s \<le> int (length (marker_list s))"
proof -
  let ?s = "nav_of (run (init_page h arrs a ics flag) es)"
  have "page_inv (run (init_page h arrs a ics flag) es)"
    using assms by (intro run_inv init_inv)
  then have inv: "nav_inv ?s (focused (run (init_page h arrs a ics flag) es))"
    by (simp add: page_inv_def)
  have l: "map snd (listeners ?s) =
      (case js_index (marker_list ?s) (currentMarker ?s) of None \<Rightarrow> [] | Some m \<Rightarrow> [m])"
  proof (cases "in_range ?s")
    case True
    with inv show ?thesis
      by (auto simp add: nav_inv_def in_range_def js_index_def)
  next
    case False
    with inv show ?thesis
      by (auto simp add: nav_inv_def in_range_def js_index_def)
  qed
  from inv_selected[OF inv] inv l show ?thesis
    by (simp add: Let_def nav_inv_def)
qed

lemma tab_in_container_same_length:
  assumes "key e = ''Tab''"
    and "- 1 \<le> currentMarker s" and "currentMarker s \<le> int (length (marker_list s))"
    and "length (marker_list s) = length (observer_list s)"
  shows "let c = currentMarker s + (if shiftKey e then - 1 else 1);
             len = int (length (marker_list s)) in
           currentMarker (fst (keydown e True s)) =
             (if \<not> shiftKey e \<and> c \<ge> len then len
              else if shiftKey e \<and> c \<le> - 1 then - 1 else c) \<and>
           snd (keydown e True s) =
             (\<not> (\<not> shiftKey e \<and> c \<ge> len) \<and> \<not> (shiftKey e \<and> c \<le> - 1))"
proof -
  have one: "currentMarker (fst (keydown e True s)) =
        clamp_cursor (int (length (marker_list s))) (shiftKey e)
          (currentMarker s + direction (shiftKey e))
      \<and> snd (keydown e True s) =
        suppressed (int (length (marker_list s))) (shiftKey e)
          (currentMarker s + direction (shiftKey e))"
    using assms(2,3) assms(4)[symmetric]
    by (cases "shiftKey e")
       (auto simp add: keydown_Tab_cursor[OF assms(1)] step_cursor_def clamp_cursor_def
          suppressed_def direction_def)
  then show ?thesis
    by (cases "shiftKey e") (simp_all add: Let_def clamp_cursor_def suppressed_def direction_def)
qed

lemma arming_same_length:
  assumes "key e = ''Tab''" and "length (marker_list s) = length (observer_list s)"
  shows "keydown e False s =
           (s\<lparr>currentMarker := (if shiftKey e then int (length (marker_list s)) else - 1)\<rparr>, False)
         \<and> (marker_list s \<noteq> [] \<longrightarrow>
             (let r = keydown e True (fst (keydown e False s));
                  entered = (if shiftKey e then last (marker_list s) else hd (marker_list s))
              in currentMarker (fst r) = (if shiftKey e then int (length (marker_list s)) - 1 else 0) \<and>
                 js_index (marker_list s) (currentMarker (fst r)) = Some entered \<and>
                 icon (store (fst r) entered) = selectedMarkerIcon s \<and>
                 snd r))"
proof -
  let ?a = "s\<lparr>currentMarker := (if shiftKey e then int (length (marker_list s)) else - 1)\<rparr>"
  have arm: "keydown e False s = (?a, False)"
    using assms by (simp add: keydown_Tab observer_Tab_inactive)
  have enter: "currentMarker (fst (keydown e True ?a)) =
        (if shiftKey e then int (length (marker_list s)) - 1 else 0) \<and>
      js_index (marker_list s) (currentMarker (fst (keydown e True ?a))) =
        Some (if shiftKey e then last (marker_list s) else hd (marker_list s)) \<and>
      icon (store (fst (keydown e True ?a))
        (if shiftKey e then last (marker_list s) else hd (marker_list s)))
        = selectedMarkerIcon s \<and>
      snd (keydown e True ?a)"
    if ne: "marker_list s \<noteq> []"
  proof (cases "shiftKey e")
    case True
    have n: "nat (int (length (marker_list s)) - 1) = length (marker_list s) - 1"
      by arith
    have j: "js_index (marker_list s) (int (length (marker_list s)) - 1) = Some (last (marker_list s))"
      "js_index (marker_list s) (int (length (marker_list s))) = None"
      using ne by (simp_all add: js_index_def last_conv_nth n)
    from True ne assms(1) assms(2)[symmetric] show ?thesis
      by (simp add: keydown_Tab observer_Tab_active Let_def iterateMarkers_result
          step_cursor_def direction_def j selectMarker_Some deselectMarker_None
          clamp_cursor_def suppressed_def)
  next
    case False
    have j: "js_index (marker_list s) 0 = Some (hd (marker_list s))"
      "js_index (marker_list s) (- 1) = None"
      using ne by (simp_all add: js_index_def hd_conv_nth)
    from False ne assms(1) assms(2)[symmetric] show ?thesis
      by (simp add: keydown_Tab observer_Tab_active Let_def iterateMarkers_result
          step_cursor_def direction_def j selectMarker_Some deselectMarker_None
          clamp_cursor_def suppressed_def)
  qed
  show ?thesis
    unfolding arm fst_conv Let_def using enter by blast
qed

lemma one_click_when_no_other_listener:
  assumes "\<forall>p \<in> set (listeners s). snd p \<noteq> m" and "key e = ''Enter''"
  shows "let r = selectMarker (Some m) s; s' = snd r in
     fst r = Some (next_listener s) \<and>
     icon (store s' m) = selectedMarkerIcon s \<and>
     effects s' = effects s @ [SetIcon m (selectedMarkerIcon s), PanTo (position (store s m)),
                               AddDomListener (next_listener s) m] \<and>
     listeners s' = listeners s @ [(next_listener s, m)] \<and>
     filter (\<lambda>x. x = TriggerClick m)
       (drop (length (effects s')) (effects (fst (keydown e True s')))) = [TriggerClick m] \<and>
     listeners (fst (keydown e True s')) = listeners s' \<and>
     keydown e False s' = (s', False)"
  using assms
  by (simp add: Let_def selectMarker_Some keydown_Enter no_click_for_other_markers)

section \<open>The claims\<close>

subsection \<open>C1: at most one marker is selected\<close>

text \<open>
  C1, at a run that re-binds. With marker \<open>0\<close> selected, \<^verbatim>\<open>updateMarkerCount\<close> captures the
  icons of the markers as they are, so the icon it keeps for marker \<open>0\<close> is the selected
  icon. The next Tab selects marker \<open>1\<close> and deselects marker \<open>0\<close> by writing the captured
  icon: after this key event markers \<open>0\<close> and \<open>1\<close> both carry the selected icon, with the
  cursor at \<open>1\<close>. It is so whether the array re-bound is another array or the same one.
  (While the host leaves the array alone the navigation keeps the property:
  \<open>single_selection_without_host_change\<close>.)
\<close>

theorem C1_rebind_leaves_two_selected:
  "marker_list (nav_of (run ex_page [FocusIn, Tab_key, Rebind 1, Tab_key])) = [0, 1, 2] \<and>
   currentMarker (nav_of (run ex_page [FocusIn, Tab_key, Rebind 1, Tab_key])) = 1 \<and>
   selected_markers (nav_of (run ex_page [FocusIn, Tab_key, Rebind 1, Tab_key])) = [0, 1] \<and>
   selected_markers (nav_of (run ex_page [FocusIn, Tab_key, Rebind 0, Tab_key])) = [0, 1]"
  by code_simp

subsection \<open>C2: Tab while the container is focused\<close>

text \<open>
  C2, at a run that re-binds with a longer array. The page starts with one marker; a first
  Tab selects it and is suppressed. After a re-bind with an array of three markers the
  stored list has length \<open>3\<close>, and a forward Tab moves the cursor from \<open>0\<close> to \<open>1\<close>, short
  of the length; but the observer compares with the length of the array it captured, \<open>1\<close>,
  and does not suppress the event. (With a stored list as long as the observer's the code
  does what the claim says: \<open>tab_in_container_same_length\<close>, \<open>tab_forward_exit\<close>.)
\<close>

theorem C2_stale_length_lets_tab_through:
  "marker_list (nav_of (run ex_page_one [FocusIn, Tab_key, Rebind 0])) = [0, 1, 2] \<and>
   currentMarker (nav_of (run ex_page_one [FocusIn, Tab_key, Rebind 0])) = 0 \<and>
   currentMarker (nav_of (run ex_page_one [FocusIn, Tab_key, Rebind 0, Tab_key])) = 1 \<and>
   prevented (run ex_page_one [FocusIn, Tab_key, Rebind 0, Tab_key]) = [True, False]"
  by code_simp

subsection \<open>C3: the order of a step\<close>

text \<open>
  C3 (as amended). A step of \<^verbatim>\<open>__iterateMarkers\<close> starts from the cursor \<open>c\<close>, which is the
  stored cursor, or \<open>0\<close> when the stored marker list is empty (line 167). It first selects
  the marker at the candidate index \<open>c + direction\<close>, which does nothing when that index is
  out of range; then it deselects the marker at \<open>c\<close>, writing the icon captured for index
  \<open>c\<close> when per-marker icons were captured and the shared deselected icon otherwise, and
  removing the listener it was given; only then it commits the cursor to \<open>c + direction\<close>.
  It returns the handle of the listener attached by the selection, if any. The host calls
  appear in this order in \<open>effects\<close>, and the vacated marker ends with the restored icon.
\<close>

theorem C3_step_order:
  "let c = step_cursor s; d = direction shift; r = iterateMarkers l shift s in
     fst r = (case js_index (marker_list s) (c + d) of None \<Rightarrow> None
              | Some m \<Rightarrow> Some (next_listener s)) \<and>
     effects (snd r) =
       effects s @ select_effects s (js_index (marker_list s) (c + d))
                 @ deselect_effects (s\<lparr>currentMarker := c\<rparr>) l (js_index (marker_list s) c) \<and>
     (case js_index (marker_list s) c of None \<Rightarrow> True
      | Some m \<Rightarrow> icon (store (snd r) m) = restore_icon (s\<lparr>currentMarker := c\<rparr>)) \<and>
     currentMarker (snd r) = c + d"
proof -
  have "icon (store (snd (iterateMarkers l shift s)) m) =
          restore_icon (s\<lparr>currentMarker := step_cursor s\<rparr>)"
    if "js_index (marker_list s) (step_cursor s) = Some m" for m
    using that
    by (cases "js_index (marker_list s) (step_cursor s + direction shift)")
       (simp_all add: iterateMarkers_result Let_def selectMarker_None selectMarker_Some
          deselectMarker_Some restore_icon_def)
  then show ?thesis
    by (simp add: Let_def iterateMarkers_fst iterateMarkers_effects iterateMarkers_cursor
        split: option.splits)
qed

text \<open>
  With an empty marker list the cursor is forced to \<open>0\<close> first: from the initial cursor
  \<open>-1\<close> a forward step commits \<open>1\<close>, not \<open>-1 + 1\<close>.
\<close>

theorem C3_empty_list_counterexample:
  "currentMarker (snd (iterateMarkers None False (keyNavInit ex_store ex_arrays 3 ex_icons False)))
     \<noteq> currentMarker (keyNavInit ex_store ex_arrays 3 ex_icons False) + 1"
  by (simp add: iterateMarkers_cursor step_cursor_def direction_def keyNavInit_def ex_arrays_def)

subsection \<open>C4: live Enter listeners\<close>

text \<open>
  C4, at a run that re-binds. With marker \<open>0\<close> selected, \<^verbatim>\<open>updateMarkerCount\<close> forgets the
  handle of its listener without removing the listener. The next Tab selects marker \<open>1\<close>
  and has no handle to remove: two Enter listeners are attached, and an Enter key-down
  clicks both markers. (Without a re-bind the listeners are those of
  \<open>single_selection_without_host_change\<close>: one for the marker under the cursor, or none.)
\<close>

theorem C4_rebind_leaves_two_listeners:
  "listeners (nav_of (run ex_page [FocusIn, Tab_key, Rebind 1, Tab_key])) =
     [(0, 0), (1, 1)] \<and>
   drop 7 (effects (nav_of (run ex_page
      [FocusIn, Tab_key, Rebind 1, Tab_key, Enter_key]))) =
     [TriggerClick 0, TriggerClick 1]"
  by code_simp

subsection \<open>C5: re-binding\<close>




subsection \<open>C6: arming on a Tab outside the container\<close>

text \<open>
  C6, at a run that re-binds with a longer array. The page starts with one marker and is
  re-bound with an array of three. A Shift+Tab outside the container sets the cursor to
  \<open>1\<close>, the length of the array the observer captured, not to the length \<open>3\<close> of the marker
  list; the next Shift+Tab, in the container, selects marker \<open>0\<close> and not the last marker.
  (With a stored list as long as the observer's the code does what the claim says:
  \<open>arming_same_length\<close>.)
\<close>

theorem C6_stale_length_arms_inside:
  "marker_list (nav_of (run ex_page_one [Rebind 0, Shift_Tab_key])) = [0, 1, 2] \<and>
   currentMarker (nav_of (run ex_page_one [Rebind 0, Shift_Tab_key])) = 1 \<and>
   currentMarker (nav_of (run ex_page_one [Rebind 0, Shift_Tab_key, FocusIn, Shift_Tab_key])) = 0 \<and>
   selected_markers (nav_of (run ex_page_one [Rebind 0, Shift_Tab_key, FocusIn, Shift_Tab_key])) = [0]"
  by code_simp

subsection \<open>C7: losing the focus\<close>




subsection \<open>C8: absent markers\<close>

text \<open>
  C8 (as amended). An index outside \<open>[0, length)\<close> reads no marker. Selecting no marker
  changes nothing and returns no listener. Deselecting no marker changes nothing at all:
  no icon is written, and the listener passed in is left as it is.
\<close>

theorem C8_absent_marker_noop:
  assumes "\<not> (0 \<le> i \<and> i < int (length (marker_list s)))"
  shows "selectMarker (js_index (marker_list s) i) s = (None, s) \<and>
         deselectMarker l (js_index (marker_list s) i) s = s"
  using assms by (auto simp add: js_index_def selectMarker_None deselectMarker_None)

theorem C8_absent_marker_noop_witness:
  "selectMarker (js_index (marker_list (nav_of ex_page)) 3) (nav_of ex_page) = (None, nav_of ex_page) \<and>
   deselectMarker (Some 0) (js_index (marker_list (nav_of ex_page)) (- 1)) (nav_of ex_page) = nav_of ex_page"
proof -
  have a: "\<not> (0 \<le> (3::int) \<and> 3 < int (length (marker_list (nav_of ex_page))))"
    by (simp add: ex_page_def init_page_def keyNavInit_def ex_arrays_def)
  have b: "\<not> (0 \<le> (- 1::int) \<and> - 1 < int (length (marker_list (nav_of ex_page))))"
    by simp
  from C8_absent_marker_noop[OF a] C8_absent_marker_noop[OF b] show ?thesis by simp
qed

text \<open>
  The guard of \<^verbatim>\<open>__deselectMarker\<close> returns before \<^verbatim>\<open>enterListener.remove()\<close>: the
  listener attached for marker \<open>0\<close> is still attached after a deselection at index \<open>3\<close>.
\<close>

theorem C8_listener_kept_counterexample:
  "(0, 0) \<in> set (listeners (deselectMarker (Some 0)
      (js_index (marker_list (nav_of ex_page)) 3)
      (snd (selectMarker (Some 0) (nav_of ex_page)))))"
  by (simp add: ex_page_def init_page_def keyNavInit_def js_index_def selectMarker_Some
      deselectMarker_None ex_arrays_def)

subsection \<open>C9: selecting a marker\<close>

text \<open>
  C9, at a run that re-binds. Marker \<open>0\<close> is selected and has its Enter listener; the
  re-bind forgets the handle, so that neither the focus loss nor any later step removes
  the listener. When the focus comes back and a Tab selects marker \<open>0\<close> again, a second
  listener for it is attached, and one Enter key-down triggers two clicks on the marker.
  (Selecting a marker that has no listener yet does all the claim says, one click per
  Enter included: \<open>one_click_when_no_other_listener\<close>.)
\<close>

theorem C9_rebind_doubles_the_click:
  "listeners (nav_of (run ex_page
      [FocusIn, Tab_key, Rebind 1, FocusOut, FocusIn, Tab_key])) = [(0, 0), (1, 0)] \<and>
   effects (nav_of (run ex_page
      [FocusIn, Tab_key, Rebind 1, FocusOut, FocusIn, Tab_key, Enter_key])) =
   effects (nav_of (run ex_page
      [FocusIn, Tab_key, Rebind 1, FocusOut, FocusIn, Tab_key])) @ [TriggerClick 0, TriggerClick 0]"
  by code_simp

subsection \<open>C10: the observer keeps the array of the initialization\<close>

text \<open>
  C10 (as amended). The observer holds the array given at initialization, by reference.
  After any events, re-binds included, in which the host application has not changed that
  array in place, its content is the list of the initialization: a Shift+Tab outside the
  container sets the cursor to that list's length, and the checks that clamp the cursor and
  decide whether the event is suppressed compare with that list's length. The step itself
  reads the stored array: the empty-list reset, the marker it selects and the marker it
  deselects are taken from the list stored now.
\<close>

theorem C10_observer_keeps_initial_array:
  assumes "\<forall>ev \<in> set es. \<not> mutates a0 ev" and "key e = ''Tab''"
  shows "let s = nav_of (run (init_page h arrs a0 ics flag) es);
             len = int (length (arrs a0));
             c = (if marker_list s = [] then 0 else currentMarker s);
             d = (if shiftKey e then - 1 else 1)
         in observer_markers s = a0 \<and> observer_list s = arrs a0 \<and>
            currentMarker (fst (keydown e False s)) = (if shiftKey e then len else - 1) \<and>
            currentMarker (fst (keydown e True s)) =
              (if c + d \<ge> len \<and> \<not> shiftKey e then len
               else if c + d \<le> - 1 \<and> shiftKey e then - 1 else c + d) \<and>
            snd (keydown e True s) =
              (\<not> (c + d \<ge> len \<and> \<not> shiftKey e) \<and> \<not> (c + d \<le> - 1 \<and> shiftKey e)) \<and>
            effects (fst (keydown e True s)) =
              effects s @ select_effects s (js_index (marker_list s) (c + d))
                        @ deselect_effects (s\<lparr>currentMarker := c\<rparr>) (previousMarkerListener s)
                            (js_index (marker_list s) c)"
proof -
  let ?s = "nav_of (run (init_page h arrs a0 ics flag) es)"
  have "observer_markers ?s = observer_markers (nav_of (init_page h arrs a0 ics flag))"
    by (rule run_observer_array)
  also have "\<dots> = a0"
    by (simp add: init_page_def keyNavInit_def)
  finally have om: "observer_markers ?s = a0" .
  have "arrays ?s a0 = arrays (nav_of (init_page h arrs a0 ics flag)) a0"
    by (rule run_array_content[OF assms(1)])
  also have "\<dots> = arrs a0"
    by (simp add: init_page_def keyNavInit_def)
  finally have ol: "arrays ?s a0 = arrs a0" .
  have sc: "step_cursor ?s = (if marker_list ?s = [] then 0 else currentMarker ?s)"
    by (simp add: step_cursor_def)
  show ?thesis
    using assms(2)
    by (cases "shiftKey e")
       (simp_all add: Let_def om ol sc keydown_Tab observer_Tab_inactive observer_Tab_active
          iterateMarkers_cursor iterateMarkers_effects clamp_cursor_def suppressed_def
          direction_def)
qed

text \<open>
  A page initialized with one marker, which a first Tab selects, and then re-bound with
  another array, of three markers: Shift+Tab outside the container sets the cursor to \<open>1\<close>,
  the old length; a forward Tab in the container selects marker \<open>1\<close> of the new list, and
  the check against the old length lets the event through.
\<close>

theorem C10_observer_keeps_initial_array_witness:
  "marker_list (nav_of (run ex_page_one [FocusIn, Tab_key, Rebind 0])) = [0, 1, 2] \<and>
   currentMarker (fst (keydown \<lparr>key = ''Tab'', shiftKey = True\<rparr> False
     (nav_of (run ex_page_one [FocusIn, Tab_key, Rebind 0])))) = 1 \<and>
   currentMarker (fst (keydown \<lparr>key = ''Tab'', shiftKey = False\<rparr> True
     (nav_of (run ex_page_one [FocusIn, Tab_key, Rebind 0])))) = 1 \<and>
   \<not> snd (keydown \<lparr>key = ''Tab'', shiftKey = False\<rparr> True
     (nav_of (run ex_page_one [FocusIn, Tab_key, Rebind 0]))) \<and>
   drop 3 (effects (fst (keydown \<lparr>key = ''Tab'', shiftKey = False\<rparr> True
     (nav_of (run ex_page_one [FocusIn, Tab_key, Rebind 0]))))) =
     [SetIcon 1 (Some ''selected.png''), PanTo (1, 0), AddDomListener 1 1,
      SetIcon 0 (Some ''selected.png'')]"
proof -
  let ?s = "nav_of (run ex_page_one [FocusIn, Tab_key, Rebind 0])"
  let ?bwd = "\<lparr>key = ''Tab'', shiftKey = True\<rparr>"
  let ?fwd = "\<lparr>key = ''Tab'', shiftKey = False\<rparr>"
  have a: "key ?bwd = ''Tab''" "key ?fwd = ''Tab''" by simp_all
  have m: "\<forall>ev \<in> set [FocusIn, Tab_key, Rebind 0]. \<not> mutates 2 ev"
    by (simp add: Tab_key_def)
  have f: "marker_list ?s = [0, 1, 2]" "currentMarker ?s = 0" "int (length (ex_arrays 2)) = 1"
    by code_simp+
  have g: "drop 3 (effects ?s @ select_effects ?s (js_index [0, 1, 2] (0 + 1))
      @ deselect_effects (?s\<lparr>currentMarker := 0\<rparr>) (previousMarkerListener ?s)
          (js_index [0, 1, 2] 0)) =
     [SetIcon 1 (Some ''selected.png''), PanTo (1, 0), AddDomListener 1 1,
      SetIcon 0 (Some ''selected.png'')]"
    by code_simp
  from C10_observer_keeps_initial_array[OF m a(1), of ex_store ex_arrays ex_icons False]
    C10_observer_keeps_initial_array[OF m a(2), of ex_store ex_arrays ex_icons False]
  show ?thesis
    unfolding ex_page_one_def[symmetric]
    using g by (simp add: Let_def f)
qed

text \<open>
  When the host application adds two markers to the array of the initialization itself and
  re-binds with it, the observer sees the new content: Shift+Tab outside the container
  sets the cursor to \<open>3\<close>, not to the length \<open>1\<close> of the list of the initialization, and the
  second forward Tab is suppressed.
\<close>

theorem C10_same_array_counterexample:
  "int (length (ex_arrays 2)) = 1 \<and>
   currentMarker (nav_of (run ex_page_one [Mutate 2 [0, 1, 2], Rebind 2, Shift_Tab_key])) = 3 \<and>
   currentMarker (nav_of (run ex_page_one
     [Mutate 2 [0, 1, 2], Rebind 2, FocusIn, Tab_key, Tab_key])) = 1 \<and>
   prevented (run ex_page_one [Mutate 2 [0, 1, 2], Rebind 2, FocusIn, Tab_key, Tab_key]) =
     [True, True]"
  by code_simp

end
